theory Spec2Isabelle
  imports Main
begin

section \<open>The account store of the wallet (store/Account)\<close>

text \<open>
  The account store is a Vuex module: a state object, mutations that overwrite fields of
  the state, and asynchronous actions that call collaborators (the SDK, the REST service,
  the other store modules) and commit mutations. The model passes the state explicitly,
  records the calls made to collaborators in a log beside the state, and takes the
  answers of the collaborators from an environment record.
\<close>

subsection \<open>Values thrown and returned\<close>

text \<open>
  A JavaScript exception is a value of \<open>error\<close>. \<open>toString\<close> is
  \<open>Error.prototype.toString\<close>: the name alone when the message is empty, and
  otherwise the name, a colon, a space and the message.
\<close>

datatype error = Error string | TypeError string

fun toString :: "error \<Rightarrow> string" where
  "toString (Error m) = (if m = [] then ''Error'' else ''Error: '' @ m)"
| "toString (TypeError m) = (if m = [] then ''TypeError'' else ''TypeError: '' @ m)"

text \<open>What a call leaves behind: the value it returns, or the value it throws.\<close>

datatype 'a outcome = Returned 'a | Thrown error

text \<open>
  The promise an asynchronous action returns: resolved with a value, rejected with an
  error, or never settled.
\<close>

datatype 'a promise = Resolved 'a | Rejected error | Pending

subsection \<open>Data of the SDK\<close>

text \<open>
  \<open>Address.equals\<close> compares the plain address and the network type, so two addresses
  are equal exactly when the two records are.
\<close>

record Address =
  plain :: string
  addressNetworkType :: nat

record AccountModel =
  name :: string
  address :: string
  publicKey :: string

record Signer =
  label :: string
  signerPublicKey :: string
  signerAddress :: Address
  multisig :: bool

record MultisigAccountInfo =
  accountAddress :: Address
  cosignatoryAddresses :: "Address list"
  multisigAddresses :: "Address list"

record AccountInfo =
  infoAddress :: Address
  infoPublicKey :: string

record Transaction =
  transactionType :: nat
  body :: string

record SignedTransaction =
  payload :: string
  hash :: string
  signerKey :: string

text \<open>
  \<open>BroadcastResult(transaction, success, error?)\<close>. The third argument is whatever the
  caller passes: the caught error itself in \<open>REST_ANNOUNCE_PARTIAL\<close>, a string
  elsewhere.
\<close>

datatype errorInfo = ErrorObject error | ErrorText string

record BroadcastResult =
  transaction :: SignedTransaction
  success :: bool
  errorOf :: "errorInfo option"

definition newBroadcastResult ::
  "SignedTransaction \<Rightarrow> bool \<Rightarrow> errorInfo option \<Rightarrow> BroadcastResult" where
  "newBroadcastResult t s e = \<lparr>transaction = t, success = s, errorOf = e\<rparr>"

subsection \<open>The state\<close>

type_synonym handle = nat

text \<open>
  \<open>SubscriptionType\<close>: the listener and the subscriptions opened on it, each a handle
  that can be closed. The field \<open>subscriptions\<close> of the source is \<open>streams\<close> here,
  since the state has a field \<open>subscriptions\<close> too.
\<close>

record SubscriptionType =
  listener :: handle
  streams :: "handle list"

record StageOptions =
  isAggregate :: bool
  isMultisig :: bool

record AccountState =
  initialized :: bool
  currentAccount :: "AccountModel option"
  currentAccountAddress :: "Address option"
  currentAccountMultisigInfo :: "MultisigAccountInfo option"
  isCosignatoryMode :: bool
  signers :: "Signer list"
  currentSigner :: "Signer option"
  currentSignerAddress :: "Address option"
  currentSignerMultisigInfo :: "MultisigAccountInfo option"
  knownAccounts :: "AccountModel list"
  knownAddresses :: "Address list"
  accountsInfo :: "AccountInfo list"
  multisigAccountsInfo :: "MultisigAccountInfo list"
  stageOptions :: StageOptions
  stagedTransactions :: "Transaction list"
  signedTransactions :: "SignedTransaction list"
  subscriptions :: "string \<rightharpoonup> SubscriptionType list"

definition accountState :: AccountState where
  "accountState =
     \<lparr>initialized = False,
      currentAccount = None,
      currentAccountAddress = None,
      currentAccountMultisigInfo = None,
      isCosignatoryMode = False,
      signers = [],
      currentSigner = None,
      currentSignerAddress = None,
      currentSignerMultisigInfo = None,
      knownAccounts = [],
      knownAddresses = [],
      accountsInfo = [],
      multisigAccountsInfo = [],
      stageOptions = \<lparr>isAggregate = False, isMultisig = False\<rparr>,
      stagedTransactions = [],
      signedTransactions = [],
      subscriptions = Map.empty\<rparr>"

subsection \<open>Arrays of JavaScript\<close>

text \<open>\<open>Array.prototype.findIndex\<close>: the first index whose element satisfies the
  predicate, and \<open>-1\<close> when there is none.\<close>

fun findIndex :: "('a \<Rightarrow> bool) \<Rightarrow> 'a list \<Rightarrow> int" where
  "findIndex p [] = - 1"
| "findIndex p (x # xs) =
     (if p x then 0
      else (let r = findIndex p xs in if r < 0 then - 1 else r + 1))"

text \<open>
  \<open>Array.prototype.splice(start, deleteCount)\<close> removes \<open>deleteCount\<close> elements from
  \<open>start\<close> on, in place, and returns them. A negative \<open>start\<close> counts from the end,
  \<open>start\<close> is clamped to the length, and \<open>deleteCount\<close> is clamped between \<open>0\<close> and what
  is left after \<open>start\<close>. The model returns the removed elements and the array as the
  call leaves it.
\<close>

definition splice :: "'a list \<Rightarrow> int \<Rightarrow> int \<Rightarrow> 'a list \<times> 'a list" where
  "splice xs start deleteCount =
     (let len = int (length xs);
          actualStart = (if start < 0 then max (len + start) 0 else min start len);
          actualDeleteCount = min (max deleteCount 0) (len - actualStart);
          s = nat actualStart;
          d = nat actualDeleteCount
      in (take d (drop s xs), take s xs @ drop (s + d) xs))"

subsection \<open>Mutations of the transaction stage\<close>

definition setStagedTransactions :: "AccountState \<Rightarrow> Transaction list \<Rightarrow> AccountState" where
  "setStagedTransactions state transactions = state\<lparr>stagedTransactions := transactions\<rparr>"

definition addStagedTransaction :: "AccountState \<Rightarrow> Transaction \<Rightarrow> AccountState" where
  "addStagedTransaction state t =
     (let staged = stagedTransactions state @ [t]
      in state\<lparr>stagedTransactions := staged\<rparr>)"

definition clearStagedTransaction :: "AccountState \<Rightarrow> AccountState" where
  "clearStagedTransaction state = state\<lparr>stagedTransactions := []\<rparr>"

definition addSignedTransaction :: "AccountState \<Rightarrow> SignedTransaction \<Rightarrow> AccountState" where
  "addSignedTransaction state t =
     (let signed = signedTransactions state @ [t]
      in state\<lparr>signedTransactions := signed\<rparr>)"

text \<open>
  \<open>removeSignedTransaction\<close>. \<open>findIndex\<close> returns a number, so the test
  \<open>undefined === idx\<close> of the source is never true and the mutation always goes on to
  the two \<open>splice\<close> calls. Both calls are on the same array \<open>signed\<close>: the receiver of
  \<open>concat\<close>, \<open>signed.splice(0, idx)\<close>, is evaluated first and shortens \<open>signed\<close>, and
  the argument \<open>signed.splice(idx + 1, signed.length - idx - 1)\<close> is evaluated on the
  array the first call has left.
\<close>

definition removeSignedTransaction ::
  "AccountState \<Rightarrow> SignedTransaction \<Rightarrow> AccountState" where
  "removeSignedTransaction state t =
     (let signed = signedTransactions state;
          idx = findIndex (\<lambda>tx. hash tx = hash t) signed;
          (front, signed1) = splice signed 0 idx;
          (back, signed2) = splice signed1 (idx + 1) (int (length signed1) - idx - 1);
          remaining = front @ back
      in state\<lparr>signedTransactions := remaining\<rparr>)"

text \<open>
  The removal the specification describes (\<open>unsign\<close>): the first entry with the given
  hash is taken out, and every other entry stays where it is.
\<close>

fun unsign :: "string \<Rightarrow> SignedTransaction list \<Rightarrow> SignedTransaction list" where
  "unsign h [] = []"
| "unsign h (x # xs) = (if hash x = h then xs else x # unsign h xs)"

subsection \<open>Collaborators\<close>

text \<open>
  Every call an action makes to a collaborator is recorded, in order: a dispatch to
  another store module, an event on the event bus, a handle opened or closed, a
  transaction submitted to the network, a request to the network.
\<close>

datatype event =
    Dispatch string
  | Emit string string
  | Open handle
  | Close handle
  | Announce SignedTransaction
  | AnnouncePartial SignedTransaction SignedTransaction
  | Fetch string

type_synonym store = "AccountState \<times> event list"

text \<open>
  An observable of rxjs, as one subscriber sees it: the values it emits, each with the
  time of the emission counted from the subscription, and how it ends. The times of an
  observable are in order, and it ends after its last emission.
\<close>

datatype ending = Completes nat | Fails nat error | Never

record 'a Observable =
  emissions :: "(nat \<times> 'a) list"
  ending :: ending

record ProfileModel =
  profileName :: string
  accounts :: "string list"

record TransactionAnnounceResponse =
  message :: string

text \<open>
  The environment of the store: the getters of the other modules, the configuration, and
  the answers of the SDK and of the services. A call that can throw answers with
  \<open>Inl\<close> of the error.
  \<^item> \<open>AGGREGATE_BROADCAST_TIMEOUT\<close> is the constant of \<open>config/app.conf.json\<close>.
  \<^item> \<open>lockRuns\<close> tells whether \<open>Lock.initialize\<close> runs its callback, given the getter
    \<open>getInitialized\<close>.
  \<^item> \<open>closeHandle\<close> is \<open>subscription.unsubscribe()\<close> and \<open>listener.close()\<close>:
    \<open>None\<close> when the call returns, the error when it throws.
  \<^item> \<open>announce\<close> is \<open>transactionHttp.announce\<close>, a call of the SDK that answers
    with an observable of rxjs: \<open>Inr\<close> of the observable, which carries what the
    network says (the response, or the failure of the request), and \<open>Inl\<close> of the
    error when the call itself throws.
\<close>

record Env =
  networkType :: nat
  currentProfile :: "ProfileModel option"
  AGGREGATE_BROADCAST_TIMEOUT :: nat
  lockRuns :: "bool \<Rightarrow> bool"
  createFromPublicKey :: "string \<Rightarrow> nat \<Rightarrow> error + Address"
  createFromRawAddress :: "string \<Rightarrow> error + Address"
  getKnownAccounts :: "string list \<Rightarrow> AccountModel list"
  getMultisigAccountGraphInfo :: "Address \<Rightarrow> error + MultisigAccountInfo list"
  getSigners ::
    "nat \<Rightarrow> AccountModel list \<Rightarrow> AccountModel option \<Rightarrow> MultisigAccountInfo option
      \<Rightarrow> Signer list"
  getAccountsInfo :: "Address list \<Rightarrow> error + AccountInfo list"
  subscribeTransactionChannels :: "string \<Rightarrow> error + SubscriptionType"
  closeHandle :: "handle \<Rightarrow> error option"
  announce :: "SignedTransaction \<Rightarrow> error + TransactionAnnounceResponse Observable"
  announceHashLockAggregateBonded ::
    "SignedTransaction \<Rightarrow> SignedTransaction \<Rightarrow> Transaction Observable"

text \<open>Sequencing of two steps of an action: a throw of the first skips the second.\<close>

definition andThen ::
  "'a outcome \<times> store \<Rightarrow> ('a \<Rightarrow> store \<Rightarrow> 'b outcome \<times> store) \<Rightarrow> 'b outcome \<times> store" where
  "andThen r f = (case r of (Thrown e, s) \<Rightarrow> (Thrown e, s) | (Returned v, s) \<Rightarrow> f v s)"

definition dispatch :: "string \<Rightarrow> store \<Rightarrow> store" where
  "dispatch action s = (fst s, snd s @ [Dispatch action])"

subsection \<open>Operators of rxjs\<close>

text \<open>\<open>of(v)\<close> emits \<open>v\<close> and completes, at once.\<close>

definition rx_of :: "'a \<Rightarrow> 'a Observable" where
  "rx_of v = \<lparr>emissions = [(0, v)], ending = Completes 0\<rparr>"

fun delayEnding :: "nat \<Rightarrow> ending \<Rightarrow> ending" where
  "delayEnding d (Completes t) = Completes (d + t)"
| "delayEnding d (Fails t e) = Fails (d + t) e"
| "delayEnding d Never = Never"

text \<open>An observable subscribed to at time \<open>d\<close>.\<close>

definition subscribedAt :: "nat \<Rightarrow> 'a Observable \<Rightarrow> 'a Observable" where
  "subscribedAt d obs =
     \<lparr>emissions = map (\<lambda>(t, v). (d + t, v)) (emissions obs),
      ending = delayEnding d (ending obs)\<rparr>"

text \<open>
  \<open>catchError(selector)\<close>: when the source fails, the subscriber goes on with the
  observable the selector makes of the error. The values of the source are \<open>Inl\<close>, the
  values of the replacement \<open>Inr\<close>.
\<close>

definition catchError ::
  "(error \<Rightarrow> 'b Observable) \<Rightarrow> 'a Observable \<Rightarrow> ('a + 'b) Observable" where
  "catchError selector source =
     (case ending source of
        Fails t e \<Rightarrow>
          (let r = subscribedAt t (selector e)
           in \<lparr>emissions = map (\<lambda>(u, v). (u, Inl v)) (emissions source)
                             @ map (\<lambda>(u, v). (u, Inr v)) (emissions r),
               ending = ending r\<rparr>)
      | other \<Rightarrow>
          \<lparr>emissions = map (\<lambda>(u, v). (u, Inl v)) (emissions source), ending = other\<rparr>)"

text \<open>\<open>mapTo(v)\<close>: every value the source emits becomes \<open>v\<close>.\<close>

definition mapTo :: "'b \<Rightarrow> 'a Observable \<Rightarrow> 'b Observable" where
  "mapTo v source =
     \<lparr>emissions = map (\<lambda>(t, _). (t, v)) (emissions source), ending = ending source\<rparr>"

text \<open>
  \<open>timeoutWith(due, withObservable)\<close>: a timer of \<open>due\<close> starts at the subscription
  and again at every emission. A notification of the source that comes before the timer
  fires passes; when the timer fires first, the source is left and the subscriber goes
  on with \<open>withObservable\<close>. \<open>since\<close> is the time the timer was last started. A
  notification at the very time the timer fires comes after it.
\<close>

fun timeoutFrom ::
  "nat \<Rightarrow> 'a Observable \<Rightarrow> nat \<Rightarrow> (nat \<times> 'a) list \<Rightarrow> ending \<Rightarrow> 'a Observable" where
  "timeoutFrom due w since [] (Completes t) =
     (if t < since + due then \<lparr>emissions = [], ending = Completes t\<rparr>
      else subscribedAt (since + due) w)"
| "timeoutFrom due w since [] (Fails t e) =
     (if t < since + due then \<lparr>emissions = [], ending = Fails t e\<rparr>
      else subscribedAt (since + due) w)"
| "timeoutFrom due w since [] Never = subscribedAt (since + due) w"
| "timeoutFrom due w since ((t, v) # rest) e =
     (if t < since + due
      then (let r = timeoutFrom due w t rest e
            in \<lparr>emissions = (t, v) # emissions r, ending = ending r\<rparr>)
      else subscribedAt (since + due) w)"

definition timeoutWith :: "nat \<Rightarrow> 'a Observable \<Rightarrow> 'a Observable \<Rightarrow> 'a Observable" where
  "timeoutWith due w source = timeoutFrom due w 0 (emissions source) (ending source)"

text \<open>
  \<open>tap(next)\<close> runs \<open>next\<close> at every emission and passes the observable on unchanged;
  \<open>tap\<close> here is the state the emissions leave.
\<close>

definition tap :: "('a \<Rightarrow> 's \<Rightarrow> 's) \<Rightarrow> 'a Observable \<Rightarrow> 's \<Rightarrow> 's" where
  "tap next obs s = fold (\<lambda>(t, v). next v) (emissions obs) s"

text \<open>
  \<open>toPromise()\<close> resolves with the last value when the observable completes (with
  \<open>undefined\<close>, here \<open>None\<close>, when it has emitted nothing), rejects when it fails, and
  stays pending when it never ends.
\<close>

definition toPromise :: "'a Observable \<Rightarrow> 'a option promise" where
  "toPromise obs =
     (case ending obs of
        Completes t \<Rightarrow>
          Resolved (if emissions obs = [] then None else Some (snd (last (emissions obs))))
      | Fails t e \<Rightarrow> Rejected e
      | Never \<Rightarrow> Pending)"

subsection \<open>The subscription registry\<close>

text \<open>
  \<open>updateSubscriptions\<close>: without a subscription (\<open>null\<close>, here \<open>None\<close>) the address
  is deleted from the registry; otherwise the subscription is appended to the ones the
  address has.
\<close>

definition updateSubscriptions ::
  "AccountState \<Rightarrow> string \<Rightarrow> SubscriptionType option \<Rightarrow> AccountState" where
  "updateSubscriptions state addr sub =
     (case sub of
        None \<Rightarrow> state\<lparr>subscriptions := (subscriptions state)(addr := None)\<rparr>
      | Some new \<Rightarrow>
          (let oldSubscriptions = (case subscriptions state addr of None \<Rightarrow> [] | Some old \<Rightarrow> old);
               newSubscriptions = oldSubscriptions @ [new]
           in state\<lparr>subscriptions := (subscriptions state)(addr \<mapsto> newSubscriptions)\<rparr>))"

text \<open>
  \<open>SUBSCRIBE\<close>. The channels are opened by \<open>RESTService.subscribeTransactionChannels\<close>,
  which answers with the listener and the subscriptions it has opened, or throws.
\<close>

definition SUBSCRIBE :: "Env \<Rightarrow> Address option \<Rightarrow> store \<Rightarrow> unit outcome \<times> store" where
  "SUBSCRIBE env addr s =
     (case addr of
        None \<Rightarrow> (Returned (), s)
      | Some a \<Rightarrow>
          (let plainAddress = plain a
           in case subscribeTransactionChannels env plainAddress of
                Inl e \<Rightarrow> (Thrown e, s)
              | Inr sub \<Rightarrow>
                  (Returned (),
                   (updateSubscriptions (fst s) plainAddress (Some sub),
                    snd s @ Open (listener sub) # map Open (streams sub)))))"

text \<open>
  \<open>UNSUBSCRIBE\<close>. The two loops call \<open>unsubscribe()\<close> on every subscription of an
  entry and then \<open>close()\<close> on its listener, entry after entry. No call is inside a
  \<open>try\<close>: a call that throws ends the loops and the action, with the error.
\<close>

fun closeSubscriptions :: "Env \<Rightarrow> handle list \<Rightarrow> event list \<Rightarrow> unit outcome \<times> event list" where
  "closeSubscriptions env [] log = (Returned (), log)"
| "closeSubscriptions env (subscription # rest) log =
     (case closeHandle env subscription of
        Some e \<Rightarrow> (Thrown e, log @ [Close subscription])
      | None \<Rightarrow> closeSubscriptions env rest (log @ [Close subscription]))"

fun closeSubscriptionTypes ::
  "Env \<Rightarrow> SubscriptionType list \<Rightarrow> event list \<Rightarrow> unit outcome \<times> event list" where
  "closeSubscriptionTypes env [] log = (Returned (), log)"
| "closeSubscriptionTypes env (subscriptionType # rest) log =
     (case closeSubscriptions env (streams subscriptionType) log of
        (Thrown e, log1) \<Rightarrow> (Thrown e, log1)
      | (Returned u, log1) \<Rightarrow>
          (case closeHandle env (listener subscriptionType) of
             Some e \<Rightarrow> (Thrown e, log1 @ [Close (listener subscriptionType)])
           | None \<Rightarrow>
               closeSubscriptionTypes env rest (log1 @ [Close (listener subscriptionType)])))"

definition UNSUBSCRIBE :: "Env \<Rightarrow> string \<Rightarrow> store \<Rightarrow> unit outcome \<times> store" where
  "UNSUBSCRIBE env plainAddress s =
     (let subscriptionTypes =
            (case subscriptions (fst s) plainAddress of None \<Rightarrow> [] | Some found \<Rightarrow> found)
      in if subscriptionTypes = [] then (Returned (), s)
         else (case closeSubscriptionTypes env subscriptionTypes (snd s) of
                 (Thrown e, log1) \<Rightarrow> (Thrown e, (fst s, log1))
               | (Returned u, log1) \<Rightarrow>
                   (Returned (), (updateSubscriptions (fst s) plainAddress None, log1))))"

text \<open>The handles of a list of entries, in the order \<open>UNSUBSCRIBE\<close> closes them.\<close>

definition handlesOf :: "SubscriptionType list \<Rightarrow> handle list" where
  "handlesOf subscriptionTypes =
     concat (map (\<lambda>st. streams st @ [listener st]) subscriptionTypes)"

text \<open>The number of close calls a handle has received in a log.\<close>

definition closeCalls :: "event list \<Rightarrow> handle \<Rightarrow> nat" where
  "closeCalls log h = length (filter (\<lambda>ev. ev = Close h) log)"

subsection \<open>The broadcast actions\<close>

text \<open>
  \<open>REST_ANNOUNCE_PARTIAL\<close>. \<open>issuer\<close> is a string or \<open>undefined\<close>; the empty string
  and \<open>undefined\<close> are falsy. The pipe is written as in the source: \<open>catchError\<close>
  first, then \<open>mapTo\<close>, then \<open>timeoutWith\<close> (\<open>announcePipe\<close>), then \<open>tap\<close> with the
  two commits.
\<close>

definition falsy :: "string option \<Rightarrow> bool" where
  "falsy v = (case v of None \<Rightarrow> True | Some str \<Rightarrow> str = [])"

definition announcePipe ::
  "nat \<Rightarrow> SignedTransaction \<Rightarrow> 'a Observable \<Rightarrow> BroadcastResult Observable" where
  "announcePipe due signedPartial source =
     timeoutWith due
       (rx_of (newBroadcastResult signedPartial False
          (Some (ErrorText ''Aggregate transaction broadcast timed out''))))
       (mapTo (newBroadcastResult signedPartial True None)
          (catchError
             (\<lambda>error. rx_of (newBroadcastResult signedPartial False (Some (ErrorObject error))))
             source))"

definition REST_ANNOUNCE_PARTIAL ::
  "Env \<Rightarrow> string option \<Rightarrow> SignedTransaction \<Rightarrow> SignedTransaction \<Rightarrow> store
    \<Rightarrow> BroadcastResult option promise \<times> store" where
  "REST_ANNOUNCE_PARTIAL env issuer signedLock signedPartial s =
     (if falsy issuer \<or> length (the issuer) \<noteq> 40 then (Resolved None, s)
      else
        (let s1 = dispatch ''diagnostic/ADD_DEBUG'' s;
             source = announceHashLockAggregateBonded env signedLock signedPartial;
             piped = announcePipe (AGGREGATE_BROADCAST_TIMEOUT env) signedPartial source;
             state1 =
               tap (\<lambda>r state.
                      removeSignedTransaction (removeSignedTransaction state signedLock)
                        signedPartial)
                 piped (fst s1)
         in (toPromise piped, (state1, snd s1 @ [AnnouncePartial signedLock signedPartial]))))"

text \<open>
  \<open>await v\<close> of a value \<open>v\<close> that has no \<open>then\<close> goes on with \<open>v\<close> itself. An
  observable of rxjs has no \<open>then\<close>: \<open>await\<close> neither subscribes to it nor throws what
  it fails with.
\<close>

definition awaitObservable :: "'a Observable \<Rightarrow> 'a Observable" where
  "awaitObservable obs = obs"

text \<open>
  \<open>REST_ANNOUNCE_TRANSACTION\<close>: one \<open>announce\<close>, inside a \<open>try\<close>. The source
  awaits what \<open>transactionHttp.announce\<close> returns as it is, with no \<open>toPromise()\<close>:
  the \<open>catch\<close> is reached only when the call itself throws, and the observable it
  returns is never looked at. The transaction is removed and a result returned on both
  paths.
\<close>

definition REST_ANNOUNCE_TRANSACTION ::
  "Env \<Rightarrow> SignedTransaction \<Rightarrow> store \<Rightarrow> BroadcastResult promise \<times> store" where
  "REST_ANNOUNCE_TRANSACTION env signedTransaction s =
     (let s1 = dispatch ''diagnostic/ADD_DEBUG'' s;
          log1 = snd s1 @ [Announce signedTransaction]
      in case announce env signedTransaction of
           Inr returned \<Rightarrow>
             (let awaited = awaitObservable returned
              in (Resolved (newBroadcastResult signedTransaction True None),
                  (removeSignedTransaction (fst s1) signedTransaction, log1)))
         | Inl e \<Rightarrow>
             (Resolved (newBroadcastResult signedTransaction False
                (Some (ErrorText (toString e)))),
              (removeSignedTransaction (fst s1) signedTransaction, log1)))"

subsection \<open>The session actions\<close>

text \<open>\<open>_.uniqBy(array, key)\<close>: the first element of every key, in the order of the
  array.\<close>

fun uniqBy :: "('a \<Rightarrow> 'k) \<Rightarrow> 'a list \<Rightarrow> 'a list" where
  "uniqBy key [] = []"
| "uniqBy key (x # xs) = x # uniqBy key (filter (\<lambda>y. key y \<noteq> key x) xs)"

text \<open>\<open>array.map(f)\<close> with an \<open>f\<close> that can throw: the first throw ends the map.\<close>

fun mapThrowing :: "('a \<Rightarrow> error + 'b) \<Rightarrow> 'a list \<Rightarrow> error + 'b list" where
  "mapThrowing f [] = Inr []"
| "mapThrowing f (x # xs) =
     (case f x of
        Inl e \<Rightarrow> Inl e
      | Inr y \<Rightarrow> (case mapThrowing f xs of Inl e \<Rightarrow> Inl e | Inr ys \<Rightarrow> Inr (y # ys)))"

text \<open>
  \<open>LOAD_ACCOUNT_INFO\<close>. The request for the multisig graph reads
  \<open>currentAccountAddress\<close>, which must be there; a failure of the request is caught
  (\<open>catchError\<close>) and read as no multisig account. The request for the account infos
  is not guarded.
\<close>

definition LOAD_ACCOUNT_INFO :: "Env \<Rightarrow> store \<Rightarrow> unit outcome \<times> store" where
  "LOAD_ACCOUNT_INFO env s =
     (let state = fst s
      in case currentAccountAddress state of
           None \<Rightarrow> (Thrown (TypeError ''Cannot read property plain of null''), s)
         | Some accountAddr \<Rightarrow>
             (let log1 = snd s @ [Fetch ''getMultisigAccountGraphInfo''];
                  multisigInfos =
                    (case getMultisigAccountGraphInfo env accountAddr of
                       Inl e \<Rightarrow> []
                     | Inr infos \<Rightarrow> infos);
                  accountMultisigInfo =
                    find (\<lambda>m. Some (accountAddress m) = currentAccountAddress state) multisigInfos;
                  signerMultisigInfo =
                    find (\<lambda>m. Some (accountAddress m) = currentSignerAddress state) multisigInfos;
                  signerList =
                    getSigners env (networkType env) (knownAccounts state) (currentAccount state)
                      accountMultisigInfo
              in case mapThrowing (\<lambda>w. createFromRawAddress env (address w))
                        (knownAccounts state) of
                   Inl e \<Rightarrow> (Thrown e, (state, log1))
                 | Inr accountAddresses \<Rightarrow>
                     (let known = uniqBy plain (map signerAddress signerList @ accountAddresses);
                          state1 = state
                            \<lparr>knownAddresses := known,
                             currentSigner :=
                               find (\<lambda>sg. Some (signerAddress sg) = currentSignerAddress state)
                                 signerList,
                             signers := signerList,
                             multisigAccountsInfo := multisigInfos,
                             currentAccountMultisigInfo := accountMultisigInfo,
                             currentSignerMultisigInfo := signerMultisigInfo\<rparr>;
                          log2 = log1 @ [Fetch ''getAccountsInfo'']
                      in case getAccountsInfo env known of
                           Inl e \<Rightarrow> (Thrown e, (state1, log2))
                         | Inr infos \<Rightarrow>
                             (Returned (), (state1\<lparr>accountsInfo := infos\<rparr>, log2)))))"

text \<open>
  \<open>SET_CURRENT_SIGNER\<close>. The public key is a string; the empty string is the falsy
  one.
\<close>

definition SET_CURRENT_SIGNER :: "Env \<Rightarrow> string \<Rightarrow> store \<Rightarrow> unit outcome \<times> store" where
  "SET_CURRENT_SIGNER env pk s =
     (if pk = [] then
        (Thrown (Error ''Public Key must be provided when calling account/SET_CURRENT_SIGNER!''),
         s)
      else
        (let previousSignerAddress = currentSignerAddress (fst s)
         in case createFromPublicKey env pk (networkType env) of
              Inl e \<Rightarrow> (Thrown e, s)
            | Inr signerAddr \<Rightarrow>
                if previousSignerAddress = Some signerAddr then (Returned (), s)
                else
                  (let s1 = dispatch ''transaction/RESET_TRANSACTIONS''
                              (dispatch ''diagnostic/ADD_DEBUG'' s)
                   in case currentAccount (fst s) of
                        None \<Rightarrow> (Thrown (TypeError ''Cannot read property address of null''), s1)
                      | Some account \<Rightarrow>
                          (case createFromRawAddress env (address account) of
                             Inl e \<Rightarrow> (Thrown e, s1)
                           | Inr accountAddr \<Rightarrow>
                               (case currentProfile env of
                                  None \<Rightarrow>
                                    (Thrown (TypeError ''Cannot read property accounts of null''),
                                     s1)
                                | Some profile \<Rightarrow>
                                    (let known = getKnownAccounts env (accounts profile);
                                         state1 = (fst s1)
                                           \<lparr>currentSignerAddress := Some signerAddr,
                                            currentAccountAddress := Some accountAddr,
                                            isCosignatoryMode := (signerAddr \<noteq> accountAddr),
                                            knownAccounts := known\<rparr>;
                                         s2 = dispatch ''transaction/SIGNER_CHANGED''
                                                (dispatch ''mosaic/SIGNER_CHANGED''
                                                  (dispatch ''namespace/SIGNER_CHANGED''
                                                    (state1, snd s1)))
                                     in andThen
                                          (case previousSignerAddress of
                                             None \<Rightarrow> (Returned (), s2)
                                           | Some previous \<Rightarrow> UNSUBSCRIBE env (plain previous) s2)
                                          (\<lambda>u s3. andThen (SUBSCRIBE env (Some signerAddr) s3)
                                            (\<lambda>u s4. andThen (LOAD_ACCOUNT_INFO env s4)
                                              (\<lambda>u s5.
                                                 (Returned (),
                                                  dispatch ''mosaic/LOAD_MOSAICS''
                                                    (dispatch ''namespace/LOAD_NAMESPACES''
                                                       s5)))))))))))"

text \<open>
  \<open>initialize\<close>: the callback marks the session initialized for a non-empty address;
  \<open>Lock.initialize\<close> decides whether the callback runs.
\<close>

definition initialize :: "Env \<Rightarrow> string \<Rightarrow> store \<Rightarrow> unit outcome \<times> store" where
  "initialize env addr s =
     (if lockRuns env (initialized (fst s)) \<and> addr \<noteq> []
      then (Returned (), ((fst s)\<lparr>initialized := True\<rparr>, snd s))
      else (Returned (), s))"

definition SET_CURRENT_ACCOUNT :: "Env \<Rightarrow> AccountModel \<Rightarrow> store \<Rightarrow> unit outcome \<times> store" where
  "SET_CURRENT_ACCOUNT env account s =
     (if (case currentAccount (fst s) of
            None \<Rightarrow> False
          | Some previous \<Rightarrow> address previous = address account)
      then (Returned (), s)
      else
        (case createFromRawAddress env (address account) of
           Inl e \<Rightarrow> (Thrown e, s)
         | Inr accountAddr \<Rightarrow>
             (let s1 = dispatch ''diagnostic/ADD_DEBUG'' s;
                  s2 = ((fst s1)\<lparr>currentAccount := Some account\<rparr>, snd s1)
              in andThen (SET_CURRENT_SIGNER env (publicKey account) s2)
                   (\<lambda>u s3. andThen (initialize env (plain accountAddr) s3)
                      (\<lambda>u s4.
                         (Returned (),
                          (fst s4, snd s4 @ [Emit ''onAccountChange'' (plain accountAddr)])))))))"

definition RESET_CURRENT_ACCOUNT :: "store \<Rightarrow> unit outcome \<times> store" where
  "RESET_CURRENT_ACCOUNT s =
     (let s1 = dispatch ''diagnostic/ADD_DEBUG'' s
      in (Returned (),
          ((fst s1)
             \<lparr>currentAccount := None,
              currentAccountAddress := None,
              currentSignerAddress := None\<rparr>,
           snd s1)))"

text \<open>The invariant of the session state the specification names.\<close>

definition cosignatoryInvariant :: "AccountState \<Rightarrow> bool" where
  "cosignatoryInvariant state =
     (isCosignatoryMode state = (currentSignerAddress state \<noteq> currentAccountAddress state))"

text \<open>
  The three outcomes of the announce of an aggregate bonded transaction, as shapes of
  the observable of the SDK, for a timeout of \<open>due\<close>: the confirmation comes before the
  timer fires and the observable completes before the timer, started again, fires; the
  observable fails before the timer fires; nothing comes before the timer fires.
\<close>

definition confirmedWithin :: "nat \<Rightarrow> 'a Observable \<Rightarrow> bool" where
  "confirmedWithin due source =
     (case emissions source of
        [(t, v)] \<Rightarrow>
          (case ending source of
             Completes t' \<Rightarrow> t < due \<and> t \<le> t' \<and> t' < t + due
           | other \<Rightarrow> False)
      | other \<Rightarrow> False)"

definition failsWithin :: "nat \<Rightarrow> 'a Observable \<Rightarrow> bool" where
  "failsWithin due source =
     (case emissions source of
        [] \<Rightarrow> (case ending source of Fails t e \<Rightarrow> t < due | other \<Rightarrow> False)
      | other \<Rightarrow> False)"

definition silentFor :: "nat \<Rightarrow> 'a Observable \<Rightarrow> bool" where
  "silentFor due source =
     (case emissions source of
        [] \<Rightarrow>
          (case ending source of
             Completes t \<Rightarrow> due \<le> t
           | Fails t e \<Rightarrow> due \<le> t
           | Never \<Rightarrow> True)
      | (t, v) # rest \<Rightarrow> due \<le> t)"

subsection \<open>Example values\<close>

definition T1 :: SignedTransaction where
  "T1 = \<lparr>payload = ''B000'', hash = ''A1'', signerKey = ''K1''\<rparr>"

definition T2 :: SignedTransaction where
  "T2 = \<lparr>payload = ''B100'', hash = ''A2'', signerKey = ''K1''\<rparr>"

definition T3 :: SignedTransaction where
  "T3 = \<lparr>payload = ''B200'', hash = ''A3'', signerKey = ''K1''\<rparr>"

definition aggregate :: Transaction where
  "aggregate = \<lparr>transactionType = 16961, body = ''B100''\<rparr>"

definition issuer40 :: string where
  "issuer40 = replicate 40 (CHR ''T'')"

definition accountA :: AccountModel where
  "accountA = \<lparr>name = ''A'', address = ''TA'', publicKey = ''A''\<rparr>"


text \<open>
  An environment whose collaborators all answer: the address of a public key is \<open>T\<close>
  before the key, every channel opened has listener \<open>1\<close> and subscriptions \<open>2\<close> and
  \<open>3\<close>, and the aggregate is confirmed at time \<open>1\<close>.
\<close>

definition exampleEnv :: Env where
  "exampleEnv =
     \<lparr>networkType = 152,
      currentProfile = Some \<lparr>profileName = ''main'', accounts = [''A'']\<rparr>,
      AGGREGATE_BROADCAST_TIMEOUT = 5,
      lockRuns = (\<lambda>isInitialized. \<not> isInitialized),
      createFromPublicKey = (\<lambda>pk nt. Inr \<lparr>plain = CHR ''T'' # pk, addressNetworkType = nt\<rparr>),
      createFromRawAddress = (\<lambda>raw. Inr \<lparr>plain = raw, addressNetworkType = 152\<rparr>),
      getKnownAccounts = (\<lambda>ids. [accountA]),
      getMultisigAccountGraphInfo = (\<lambda>a. Inr []),
      getSigners = (\<lambda>nt known current info. []),
      getAccountsInfo = (\<lambda>known. Inr []),
      subscribeTransactionChannels = (\<lambda>a. Inr \<lparr>listener = 1, streams = [2, 3]\<rparr>),
      closeHandle = (\<lambda>h. None),
      announce =
        (\<lambda>t. Inr \<lparr>emissions = [(1, \<lparr>message = ''packet 9 was pushed to the network''\<rparr>)],
                   ending = Completes 1\<rparr>),
      announceHashLockAggregateBonded =
        (\<lambda>signedLock signedPartial. \<lparr>emissions = [(1, aggregate)], ending = Completes 1\<rparr>)\<rparr>"

text \<open>The same environment with a network that refuses the announce of the aggregate
  at time \<open>1\<close>.\<close>

definition refusingEnv :: Env where
  "refusingEnv =
     exampleEnv\<lparr>announceHashLockAggregateBonded :=
       (\<lambda>signedLock signedPartial.
          \<lparr>emissions = [], ending = Fails 1 (Error ''Failure_Core_Insufficient_Balance'')\<rparr>)\<rparr>"

text \<open>The same environment with a network that never confirms.\<close>

definition silentEnv :: Env where
  "silentEnv =
     exampleEnv\<lparr>announceHashLockAggregateBonded :=
       (\<lambda>signedLock signedPartial. \<lparr>emissions = [], ending = Never\<rparr>)\<rparr>"

text \<open>The same environment with a subscription, handle \<open>2\<close>, that fails to close.\<close>

definition stuckEnv :: Env where
  "stuckEnv =
     exampleEnv\<lparr>closeHandle :=
       (\<lambda>h. if h = 2 then Some (Error ''unsubscribe failed'') else None)\<rparr>"

text \<open>The same environment with a network that rejects every announce: the observable
  the SDK returns fails, at time \<open>1\<close>.\<close>

definition offlineEnv :: Env where
  "offlineEnv =
     exampleEnv\<lparr>announce :=
       (\<lambda>t. Inr \<lparr>emissions = [], ending = Fails 1 (Error ''Network Error'')\<rparr>)\<rparr>"

definition subscribedState :: AccountState where
  "subscribedState =
     accountState\<lparr>subscriptions := [''TA'' \<mapsto> [\<lparr>listener = 1, streams = [2, 3]\<rparr>]]\<rparr>"

section \<open>Properties of the transaction stage\<close>


lemma findIndex_lower: "- 1 \<le> findIndex p xs"
  by (induction xs) (auto simp: Let_def)

lemma findIndex_none: "(findIndex p xs = - 1) = (\<forall>x \<in> set xs. \<not> p x)"
proof (induction xs)
  case Nil
  show ?case by simp
next
  case (Cons x xs)
  have "- 1 \<le> findIndex p xs" by (rule findIndex_lower)
  with Cons show ?case by (auto simp: Let_def)
qed

lemma findIndex_found:
  "\<exists>x \<in> set xs. p x \<Longrightarrow>
   \<exists>i. findIndex p xs = int i \<and> i < length xs \<and> p (xs ! i) \<and> (\<forall>j < i. \<not> p (xs ! j))"
proof (induction xs)
  case Nil
  then show ?case by simp
next
  case (Cons x xs)
  show ?case
  proof (cases "p x")
    case True
    then show ?thesis by (intro exI [of _ 0]) simp
  next
    case False
    with Cons.prems have "\<exists>y \<in> set xs. p y" by auto
    from Cons.IH [OF this] obtain i where
      i: "findIndex p xs = int i" "i < length xs" "p (xs ! i)" "\<forall>j < i. \<not> p (xs ! j)"
      by blast
    have "\<forall>j < Suc i. \<not> p ((x # xs) ! j)"
      using False i(4) by (auto simp: nth_Cons split: nat.splits)
    with False i show ?thesis
      by (intro exI [of _ "Suc i"]) (simp add: Let_def)
  qed
qed

lemma splice_front: "splice xs 0 (int i) = (take i xs, drop i xs)"
  by (simp add: splice_def Let_def min_def max_def)

lemma splice_nothing: "splice xs 0 (- 1) = ([], xs)"
  by (simp add: splice_def Let_def)

lemma splice_all: "splice xs 0 (int (length xs)) = (xs, [])"
  by (simp add: splice_def Let_def)

lemma splice_back:
  "splice ys (int i + 1) (int (length ys) - int i - 1) = (drop (Suc i) ys, take (Suc i) ys)"
proof (cases "Suc i \<le> length ys")
  case True
  then have s: "nat (min (int i + 1) (int (length ys))) = Suc i" by (simp add: min_def)
  from True have d: "nat (min (max (int (length ys) - int i - 1) 0)
        (int (length ys) - min (int i + 1) (int (length ys)))) = length ys - Suc i"
    by (simp add: min_def max_def) arith
  show ?thesis
    unfolding splice_def Let_def using True s d by simp
next
  case False
  then have s: "nat (min (int i + 1) (int (length ys))) = length ys" by (simp add: min_def)
  from False have d: "nat (min (max (int (length ys) - int i - 1) 0)
        (int (length ys) - min (int i + 1) (int (length ys)))) = 0"
    by (simp add: min_def max_def)
  show ?thesis
    unfolding splice_def Let_def using False s d by simp
qed

lemma removeSignedTransaction_at:
  assumes "findIndex (\<lambda>tx. hash tx = hash t) (signedTransactions state) = int i"
  shows "signedTransactions (removeSignedTransaction state t) =
         take i (signedTransactions state) @ drop (2 * i + 1) (signedTransactions state)"
proof -
  let ?xs = "signedTransactions state"
  have b: "splice (drop i ?xs) (int i + 1) (int (length (drop i ?xs)) - int i - 1)
           = (drop (Suc i) (drop i ?xs), take (Suc i) (drop i ?xs))"
    by (rule splice_back)
  show ?thesis
    using assms b by (simp add: removeSignedTransaction_def Let_def splice_front add.commute mult_2)
qed

lemma removeSignedTransaction_absent:
  assumes "\<forall>x \<in> set (signedTransactions state). hash x \<noteq> hash t"
  shows "removeSignedTransaction state t = state"
proof -
  from assms have "findIndex (\<lambda>tx. hash tx = hash t) (signedTransactions state) = - 1"
    by (simp add: findIndex_none)
  then show ?thesis
    by (simp add: removeSignedTransaction_def Let_def splice_nothing splice_all)
qed


lemma removeSignedTransaction_sublist:
  "set (signedTransactions (removeSignedTransaction state t)) \<subseteq> set (signedTransactions state)"
proof (cases "\<exists>x \<in> set (signedTransactions state). hash x = hash t")
  case True
  from findIndex_found [where p = "\<lambda>tx. hash tx = hash t", OF True] obtain i where
    "findIndex (\<lambda>tx. hash tx = hash t) (signedTransactions state) = int i" by blast
  from removeSignedTransaction_at [OF this] show ?thesis
    by (auto dest: in_set_takeD in_set_dropD)
next
  case False
  then have "removeSignedTransaction state t = state"
    by (intro removeSignedTransaction_absent) auto
  then show ?thesis by simp
qed

lemma removeSignedTransaction_distinct:
  assumes "distinct (map hash (signedTransactions state))"
  shows "distinct (map hash (signedTransactions (removeSignedTransaction state t)))"
proof (cases "\<exists>x \<in> set (signedTransactions state). hash x = hash t")
  case True
  let ?xs = "signedTransactions state"
  from findIndex_found [where p = "\<lambda>tx. hash tx = hash t", OF True] obtain i where
    i: "findIndex (\<lambda>tx. hash tx = hash t) ?xs = int i" by blast
  have "distinct (map hash (take i ?xs @ drop i ?xs))" using assms by simp
  then have d: "distinct (map hash (take i ?xs)) \<and> distinct (map hash (drop i ?xs)) \<and>
      set (map hash (take i ?xs)) \<inter> set (map hash (drop i ?xs)) = {}"
    by (simp only: map_append distinct_append)
  have "drop (2 * i + 1) ?xs = drop (i + 1) (drop i ?xs)" by (simp add: mult_2)
  then have s: "set (drop (2 * i + 1) ?xs) \<subseteq> set (drop i ?xs)"
    by (metis set_drop_subset)
  have dd: "distinct (map hash (drop (2 * i + 1) ?xs))"
    using assms by (simp add: distinct_drop flip: drop_map)
  from d s dd show ?thesis
    unfolding removeSignedTransaction_at [OF i] by (auto simp: distinct_append)
next
  case False
  then have "removeSignedTransaction state t = state"
    by (intro removeSignedTransaction_absent) auto
  with assms show ?thesis by simp
qed

lemma removeSignedTransaction_gone:
  assumes "distinct (map hash (signedTransactions state))"
  shows "hash t \<notin> hash ` set (signedTransactions (removeSignedTransaction state t))"
proof (cases "\<exists>x \<in> set (signedTransactions state). hash x = hash t")
  case True
  let ?xs = "signedTransactions state"
  from findIndex_found [where p = "\<lambda>tx. hash tx = hash t", OF True] obtain i where
    i: "findIndex (\<lambda>tx. hash tx = hash t) ?xs = int i" and len: "i < length ?xs"
    and at: "hash (?xs ! i) = hash t" by blast
  have "distinct (map hash (take i ?xs @ ?xs ! i # drop (Suc i) ?xs))"
    using assms len by (simp add: id_take_nth_drop [symmetric])
  then have a: "hash t \<notin> hash ` set (take i ?xs)" and b: "hash t \<notin> hash ` set (drop (Suc i) ?xs)"
    using at by auto
  have "drop (2 * i + 1) ?xs = drop i (drop (Suc i) ?xs)" by (simp add: mult_2)
  then have "set (drop (2 * i + 1) ?xs) \<subseteq> set (drop (Suc i) ?xs)"
    by (metis set_drop_subset)
  with a b show ?thesis
    unfolding removeSignedTransaction_at [OF i] by auto
next
  case False
  then have "removeSignedTransaction state t = state"
    by (intro removeSignedTransaction_absent) auto
  with False show ?thesis by auto
qed

text \<open>
  C1. Removing a signed transaction by hash should take out the first entry with that
  hash and keep every other entry in order: removing \<open>T2\<close> from \<open>[T1, T2, T3]\<close>
  should leave \<open>[T1, T3]\<close>, as \<open>unsign\<close> does. The mutation leaves \<open>[T1]\<close>: the
  second \<open>splice\<close> works on the array the first one has shortened, so the entries
  after the removed one are lost as well.
\<close>

theorem removeSignedTransaction_drops_later_entries:
  "signedTransactions
     (removeSignedTransaction (accountState\<lparr>signedTransactions := [T1, T2, T3]\<rparr>) T2) = [T1]
   \<and> unsign (hash T2) [T1, T2, T3] = [T1, T3]"
  by (simp add: removeSignedTransaction_def splice_def T1_def T2_def T3_def Let_def)

text \<open>
  C9. Removing a signed transaction whose hash matches no entry leaves the state as it
  is; the mutation has no failing path.
\<close>

theorem removeSignedTransaction_no_match:
  assumes "\<forall>x \<in> set (signedTransactions state). hash x \<noteq> hash t"
  shows "removeSignedTransaction state t = state"
  using assms by (rule removeSignedTransaction_absent)

theorem removeSignedTransaction_no_match_witness:
  "hash T1 \<noteq> hash T2 \<and> hash T3 \<noteq> hash T2 \<and>
   removeSignedTransaction (accountState\<lparr>signedTransactions := [T1, T3]\<rparr>) T2
     = accountState\<lparr>signedTransactions := [T1, T3]\<rparr>"
  using removeSignedTransaction_no_match
    [of "accountState\<lparr>signedTransactions := [T1, T3]\<rparr>" T2]
  by (simp add: T1_def T2_def T3_def)

section \<open>Properties of the broadcast actions\<close>

subsection \<open>The pipe of the aggregate announce\<close>

lemma announcePipe_confirmed:
  assumes "emissions source = [(t, v)]" "ending source = Completes t'"
    and "t < due" "t' < t + due"
  shows "announcePipe due signedPartial source =
         \<lparr>emissions = [(t, newBroadcastResult signedPartial True None)], ending = Completes t'\<rparr>"
  using assms by (simp add: announcePipe_def timeoutWith_def mapTo_def catchError_def)

lemma announcePipe_fails:
  assumes "emissions source = []" "ending source = Fails t e" and "t < due"
  shows "announcePipe due signedPartial source =
         \<lparr>emissions = [(t, newBroadcastResult signedPartial True None)], ending = Completes t\<rparr>"
  using assms
  by (simp add: announcePipe_def timeoutWith_def mapTo_def catchError_def rx_of_def
      subscribedAt_def Let_def)

lemma timeoutFrom_silent:
  assumes "silentFor due source"
  shows "timeoutFrom due w 0 (emissions source) (ending source) = subscribedAt due w"
  using assms
  by (cases "emissions source"; cases "ending source") (auto simp: silentFor_def)

lemma announcePipe_silent:
  assumes "silentFor due source"
  shows "announcePipe due signedPartial source =
         \<lparr>emissions = [(due, newBroadcastResult signedPartial False
              (Some (ErrorText ''Aggregate transaction broadcast timed out'')))],
          ending = Completes due\<rparr>"
proof -
  let ?m = "mapTo (newBroadcastResult signedPartial True None)
    (catchError (\<lambda>error. rx_of (newBroadcastResult signedPartial False (Some (ErrorObject error))))
       source)"
  have "silentFor due ?m"
    using assms
    by (auto simp: silentFor_def mapTo_def catchError_def rx_of_def subscribedAt_def Let_def
        split: list.splits ending.splits)
  from timeoutFrom_silent [OF this] show ?thesis
    by (simp add: announcePipe_def timeoutWith_def rx_of_def subscribedAt_def)
qed

lemma tap_single: "emissions obs = [(t, v)] \<Longrightarrow> tap next obs s = next v s"
  by (simp add: tap_def)

lemma timeoutFrom_completes:
  assumes "\<And>t e'. e \<noteq> Fails t e'" and "ending w = Completes 0"
  shows "\<exists>t. ending (timeoutFrom due w since es e) = Completes t"
  using assms
proof (induction es arbitrary: since)
  case Nil
  then show ?case by (cases e) (auto simp: subscribedAt_def)
next
  case (Cons a es)
  obtain t v where a: "a = (t, v)" by (cases a)
  from Cons.IH [OF Cons.prems, of t] Cons.prems(2) show ?case
    by (auto simp: a Let_def subscribedAt_def)
qed

lemma announcePipe_completes:
  "\<exists>t. ending (announcePipe due signedPartial source) = Completes t"
proof -
  let ?c = "catchError
     (\<lambda>error. rx_of (newBroadcastResult signedPartial False (Some (ErrorObject error)))) source"
  have "\<And>t e'. ending ?c \<noteq> Fails t e'"
    by (auto simp: catchError_def rx_of_def subscribedAt_def Let_def split: ending.splits)
  then have ne: "\<And>t e'. ending (mapTo (newBroadcastResult signedPartial True None) ?c) \<noteq> Fails t e'"
    by (simp add: mapTo_def)
  have w: "ending (rx_of (newBroadcastResult signedPartial False
      (Some (ErrorText ''Aggregate transaction broadcast timed out'')))) = Completes 0"
    by (simp add: rx_of_def)
  show ?thesis
    unfolding announcePipe_def timeoutWith_def by (rule timeoutFrom_completes [OF ne w])
qed

text \<open>The promise of a call that passes the guard is always resolved: it is never
  rejected and never left pending.\<close>

lemma announce_partial_resolves:
  assumes "\<not> falsy issuer" "length (the issuer) = 40"
  shows "\<exists>r. fst (REST_ANNOUNCE_PARTIAL env issuer signedLock signedPartial s) = Resolved r"
proof -
  obtain t where "ending (announcePipe (AGGREGATE_BROADCAST_TIMEOUT env) signedPartial
      (announceHashLockAggregateBonded env signedLock signedPartial)) = Completes t"
    using announcePipe_completes by blast
  with assms show ?thesis
    by (simp add: REST_ANNOUNCE_PARTIAL_def Let_def toPromise_def)
qed

lemma announce_partial_confirmed:
  assumes "\<not> falsy issuer" "length (the issuer) = 40"
    and "confirmedWithin (AGGREGATE_BROADCAST_TIMEOUT env)
           (announceHashLockAggregateBonded env signedLock signedPartial)"
  shows "fst (REST_ANNOUNCE_PARTIAL env issuer signedLock signedPartial s)
         = Resolved (Some (newBroadcastResult signedPartial True None))"
proof -
  let ?source = "announceHashLockAggregateBonded env signedLock signedPartial"
  let ?due = "AGGREGATE_BROADCAST_TIMEOUT env"
  from assms(3) obtain t v t' where "emissions ?source = [(t, v)]" "ending ?source = Completes t'"
      "t < ?due" "t' < t + ?due"
    by (auto simp: confirmedWithin_def split: list.splits ending.splits prod.splits)
  from announcePipe_confirmed [OF this] assms(1,2) show ?thesis
    by (simp add: REST_ANNOUNCE_PARTIAL_def Let_def toPromise_def)
qed

text \<open>A failure of the announce comes back as a success: \<open>mapTo\<close> stands after
  \<open>catchError\<close> and overwrites the failure result with the success result.\<close>

lemma announce_partial_failed:
  assumes "\<not> falsy issuer" "length (the issuer) = 40"
    and "failsWithin (AGGREGATE_BROADCAST_TIMEOUT env)
           (announceHashLockAggregateBonded env signedLock signedPartial)"
  shows "fst (REST_ANNOUNCE_PARTIAL env issuer signedLock signedPartial s)
         = Resolved (Some (newBroadcastResult signedPartial True None))"
proof -
  let ?source = "announceHashLockAggregateBonded env signedLock signedPartial"
  let ?due = "AGGREGATE_BROADCAST_TIMEOUT env"
  from assms(3) obtain t e where "emissions ?source = []" "ending ?source = Fails t e" "t < ?due"
    by (auto simp: failsWithin_def split: list.splits ending.splits)
  from announcePipe_fails [OF this] assms(1,2) show ?thesis
    by (simp add: REST_ANNOUNCE_PARTIAL_def Let_def toPromise_def)
qed

lemma announce_partial_timed_out:
  assumes "\<not> falsy issuer" "length (the issuer) = 40"
    and "silentFor (AGGREGATE_BROADCAST_TIMEOUT env)
           (announceHashLockAggregateBonded env signedLock signedPartial)"
  shows "fst (REST_ANNOUNCE_PARTIAL env issuer signedLock signedPartial s)
         = Resolved (Some (newBroadcastResult signedPartial False
             (Some (ErrorText ''Aggregate transaction broadcast timed out''))))"
  using announcePipe_silent [OF assms(3)] assms(1,2)
  by (simp add: REST_ANNOUNCE_PARTIAL_def Let_def toPromise_def)

text \<open>
  C2. The result of \<open>REST_ANNOUNCE_PARTIAL\<close> should tell the three outcomes apart:
  success on a confirmation, a failure carrying the error when the announce fails, a
  failure with the timeout message when nothing comes in time. On a failing announce
  the action resolves with a success result: the network refuses the aggregate at time
  \<open>1\<close>, well before the timeout of \<open>5\<close>, and the caller is told the broadcast
  succeeded.
\<close>

theorem announce_partial_error_reported_as_success:
  "fst (REST_ANNOUNCE_PARTIAL refusingEnv (Some issuer40) T1 T2
          (accountState\<lparr>signedTransactions := [T1, T2]\<rparr>, []))
   = Resolved (Some \<lparr>transaction = T2, success = True, errorOf = None\<rparr>)"
proof -
  have h1: "\<not> falsy (Some issuer40)" by (simp add: falsy_def issuer40_def)
  have h2: "length (the (Some issuer40)) = 40" by (simp add: issuer40_def)
  have h3: "failsWithin (AGGREGATE_BROADCAST_TIMEOUT refusingEnv)
     (announceHashLockAggregateBonded refusingEnv T1 T2)"
    by (simp add: refusingEnv_def exampleEnv_def failsWithin_def)
  from announce_partial_failed [OF h1 h2 h3] show ?thesis
    by (simp add: newBroadcastResult_def)
qed

text \<open>
  C3. In each of the three outcomes of the announce (confirmed, failed, timed out) the
  two commits, \<open>removeSignedTransaction\<close> of the lock and \<open>removeSignedTransaction\<close> of
  the partial transaction, run exactly once: the state the action leaves is the state
  with the two mutations applied once each, and where the hashes of the signed
  transactions are distinct neither hash is left in the sequence.
\<close>

theorem announce_partial_removes_both:
  assumes issuer: "\<not> falsy issuer" "length (the issuer) = 40"
    and outcome:
      "confirmedWithin (AGGREGATE_BROADCAST_TIMEOUT env)
         (announceHashLockAggregateBonded env signedLock signedPartial)
       \<or> failsWithin (AGGREGATE_BROADCAST_TIMEOUT env)
         (announceHashLockAggregateBonded env signedLock signedPartial)
       \<or> silentFor (AGGREGATE_BROADCAST_TIMEOUT env)
         (announceHashLockAggregateBonded env signedLock signedPartial)"
  shows "fst (snd (REST_ANNOUNCE_PARTIAL env issuer signedLock signedPartial (state, log)))
           = removeSignedTransaction (removeSignedTransaction state signedLock) signedPartial
         \<and> (distinct (map hash (signedTransactions state)) \<longrightarrow>
              hash signedLock \<notin> hash ` set (signedTransactions
                (fst (snd (REST_ANNOUNCE_PARTIAL env issuer signedLock signedPartial (state, log)))))
              \<and> hash signedPartial \<notin> hash ` set (signedTransactions
                (fst (snd (REST_ANNOUNCE_PARTIAL env issuer signedLock signedPartial (state, log))))))"
proof -
  let ?source = "announceHashLockAggregateBonded env signedLock signedPartial"
  let ?due = "AGGREGATE_BROADCAST_TIMEOUT env"
  let ?removed = "removeSignedTransaction (removeSignedTransaction state signedLock) signedPartial"
  have one: "\<exists>t r. emissions (announcePipe ?due signedPartial ?source) = [(t, r)]"
    using outcome
  proof (elim disjE)
    assume "confirmedWithin ?due ?source"
    then obtain t v t' where "emissions ?source = [(t, v)]" "ending ?source = Completes t'"
      "t < ?due" "t' < t + ?due"
      by (auto simp: confirmedWithin_def split: list.splits ending.splits prod.splits)
    from announcePipe_confirmed [OF this] show ?thesis by simp
  next
    assume "failsWithin ?due ?source"
    then obtain t e where "emissions ?source = []" "ending ?source = Fails t e" "t < ?due"
      by (auto simp: failsWithin_def split: list.splits ending.splits)
    from announcePipe_fails [OF this] show ?thesis by simp
  next
    assume "silentFor ?due ?source"
    from announcePipe_silent [OF this] show ?thesis by simp
  qed
  then obtain t r where "emissions (announcePipe ?due signedPartial ?source) = [(t, r)]"
    by blast
  then have run: "fst (snd (REST_ANNOUNCE_PARTIAL env issuer signedLock signedPartial (state, log)))
      = ?removed"
    using issuer by (simp add: REST_ANNOUNCE_PARTIAL_def Let_def dispatch_def tap_single)
  have gone: "hash signedLock \<notin> hash ` set (signedTransactions ?removed)
      \<and> hash signedPartial \<notin> hash ` set (signedTransactions ?removed)"
    if d: "distinct (map hash (signedTransactions state))"
  proof -
    have a: "hash signedLock \<notin> hash ` set (signedTransactions (removeSignedTransaction state signedLock))"
      using d by (rule removeSignedTransaction_gone)
    have "set (signedTransactions ?removed)
        \<subseteq> set (signedTransactions (removeSignedTransaction state signedLock))"
      by (rule removeSignedTransaction_sublist)
    with a have a': "hash signedLock \<notin> hash ` set (signedTransactions ?removed)" by blast
    have "distinct (map hash (signedTransactions (removeSignedTransaction state signedLock)))"
      using d by (rule removeSignedTransaction_distinct)
    then have "hash signedPartial \<notin> hash ` set (signedTransactions ?removed)"
      by (rule removeSignedTransaction_gone)
    with a' show ?thesis by simp
  qed
  from run gone show ?thesis by simp
qed


theorem announce_partial_removes_both_witness:
  "\<not> falsy (Some issuer40) \<and> length issuer40 = 40 \<and>
   silentFor (AGGREGATE_BROADCAST_TIMEOUT silentEnv)
     (announceHashLockAggregateBonded silentEnv T1 T2) \<and>
   signedTransactions (fst (snd (REST_ANNOUNCE_PARTIAL silentEnv (Some issuer40) T1 T2
     (accountState\<lparr>signedTransactions := [T1, T2, T3]\<rparr>, [])))) = [T3]"
proof -
  have h1: "\<not> falsy (Some issuer40)" by (simp add: falsy_def issuer40_def)
  have h2: "length (the (Some issuer40)) = 40" by (simp add: issuer40_def)
  have h3: "silentFor (AGGREGATE_BROADCAST_TIMEOUT silentEnv)
     (announceHashLockAggregateBonded silentEnv T1 T2)"
    by (simp add: silentEnv_def exampleEnv_def silentFor_def)
  then have h4: "confirmedWithin (AGGREGATE_BROADCAST_TIMEOUT silentEnv)
         (announceHashLockAggregateBonded silentEnv T1 T2)
       \<or> failsWithin (AGGREGATE_BROADCAST_TIMEOUT silentEnv)
         (announceHashLockAggregateBonded silentEnv T1 T2)
       \<or> silentFor (AGGREGATE_BROADCAST_TIMEOUT silentEnv)
         (announceHashLockAggregateBonded silentEnv T1 T2)" by simp
  have r: "signedTransactions (removeSignedTransaction (removeSignedTransaction
      (accountState\<lparr>signedTransactions := [T1, T2, T3]\<rparr>) T1) T2) = [T3]"
    by (simp add: removeSignedTransaction_def splice_def T1_def T2_def T3_def Let_def)
  from announce_partial_removes_both [OF h1 h2 h4,
      of "accountState\<lparr>signedTransactions := [T1, T2, T3]\<rparr>" "[]"] h1 h2 h3 r
  show ?thesis by simp
qed

text \<open>
  C10. A call whose issuer is falsy or not 40 characters long resolves with
  \<open>undefined\<close> and leaves the state and the log of collaborator calls as they were:
  no result, nothing dispatched, nothing announced, no signed transaction removed.
\<close>

theorem announce_partial_guard:
  assumes "falsy issuer \<or> length (the issuer) \<noteq> 40"
  shows "REST_ANNOUNCE_PARTIAL env issuer signedLock signedPartial s = (Resolved None, s)"
  using assms by (simp add: REST_ANNOUNCE_PARTIAL_def)

theorem announce_partial_guard_witness:
  "length ''TATNE7Q5BITMUTRRN6IB4I7FLSDRDWZA37JGO5Q'' = 39 \<and>
   REST_ANNOUNCE_PARTIAL exampleEnv (Some ''TATNE7Q5BITMUTRRN6IB4I7FLSDRDWZA37JGO5Q'') T1 T2
     (accountState\<lparr>signedTransactions := [T1, T2]\<rparr>, [])
   = (Resolved None, (accountState\<lparr>signedTransactions := [T1, T2]\<rparr>, []))"
  using announce_partial_guard [of "Some ''TATNE7Q5BITMUTRRN6IB4I7FLSDRDWZA37JGO5Q''"
      exampleEnv T1 T2 "(accountState\<lparr>signedTransactions := [T1, T2]\<rparr>, [])"]
  by simp

text \<open>What \<open>REST_ANNOUNCE_TRANSACTION\<close> does on its two paths. When the call of the
  SDK returns, whatever the observable it returns carries, the result is a success;
  when the call throws, the result is a failure with the description of the error. The
  removal and the log are the same on both: one announce, one removal.\<close>

lemma announce_transaction_returned:
  assumes "announce env signedTransaction = Inr returned"
  shows "REST_ANNOUNCE_TRANSACTION env signedTransaction (state, log) =
           (Resolved (newBroadcastResult signedTransaction True None),
            (removeSignedTransaction state signedTransaction,
             log @ [Dispatch ''diagnostic/ADD_DEBUG'', Announce signedTransaction]))"
  using assms by (simp add: REST_ANNOUNCE_TRANSACTION_def Let_def dispatch_def)

lemma announce_transaction_thrown:
  assumes "announce env signedTransaction = Inl e"
  shows "REST_ANNOUNCE_TRANSACTION env signedTransaction (state, log) =
           (Resolved (newBroadcastResult signedTransaction False (Some (ErrorText (toString e)))),
            (removeSignedTransaction state signedTransaction,
             log @ [Dispatch ''diagnostic/ADD_DEBUG'', Announce signedTransaction]))"
  using assms by (simp add: REST_ANNOUNCE_TRANSACTION_def Let_def dispatch_def)

text \<open>
  C7. When the network announce of a signed transaction fails,
  \<open>REST_ANNOUNCE_TRANSACTION\<close> should remove the transaction and return a result with
  \<open>success = false\<close> carrying the description of the error. The transaction is removed
  and the announce is made once, but the result says \<open>success = true\<close> and carries no
  error: the request fails with \<open>Network Error\<close> inside the observable the SDK
  returns, and the action awaits that observable without \<open>toPromise()\<close>, so the
  failure never reaches the \<open>catch\<close>.
\<close>

theorem announce_transaction_failure_reported_as_success:
  "announce offlineEnv T1 = Inr \<lparr>emissions = [], ending = Fails 1 (Error ''Network Error'')\<rparr>
   \<and> REST_ANNOUNCE_TRANSACTION offlineEnv T1 (accountState\<lparr>signedTransactions := [T1, T2]\<rparr>, [])
     = (Resolved \<lparr>transaction = T1, success = True, errorOf = None\<rparr>,
        (accountState\<lparr>signedTransactions := [T2]\<rparr>,
         [Dispatch ''diagnostic/ADD_DEBUG'', Announce T1]))"
proof -
  have h: "announce offlineEnv T1 =
      Inr \<lparr>emissions = [], ending = Fails 1 (Error ''Network Error'')\<rparr>"
    by (simp add: offlineEnv_def)
  have r: "removeSignedTransaction (accountState\<lparr>signedTransactions := [T1, T2]\<rparr>) T1
      = accountState\<lparr>signedTransactions := [T2]\<rparr>"
    by (simp add: removeSignedTransaction_def splice_def T1_def T2_def Let_def)
  from announce_transaction_returned
    [OF h, of "accountState\<lparr>signedTransactions := [T1, T2]\<rparr>" "[]"] h r
  show ?thesis
    by (simp add: newBroadcastResult_def)
qed

section \<open>Properties of the subscription registry\<close>

text \<open>The two loops of \<open>UNSUBSCRIBE\<close> are one pass over the handles of the entries,
  which stops at the first handle whose close throws.\<close>

lemma closeSubscriptions_append:
  "closeSubscriptions env (xs @ ys) log =
     (case closeSubscriptions env xs log of
        (Thrown e, log1) \<Rightarrow> (Thrown e, log1)
      | (Returned u, log1) \<Rightarrow> closeSubscriptions env ys log1)"
  by (induction xs arbitrary: log) (auto split: option.splits)

lemma closeSubscriptionTypes_flat:
  "closeSubscriptionTypes env sts log = closeSubscriptions env (handlesOf sts) log"
proof (induction sts arbitrary: log)
  case Nil
  show ?case by (simp add: handlesOf_def)
next
  case (Cons st sts)
  have h: "handlesOf (st # sts) = streams st @ listener st # handlesOf sts"
    by (simp add: handlesOf_def)
  show ?case
    unfolding h closeSubscriptions_append
    by (auto simp: Cons.IH split: prod.splits outcome.splits option.splits)
qed

lemma closeSubscriptions_run:
  "closeSubscriptions env hs log =
     (case find (\<lambda>h. closeHandle env h \<noteq> None) hs of
        None \<Rightarrow> (Returned (), log @ map Close hs)
      | Some h \<Rightarrow>
          (Thrown (the (closeHandle env h)),
           log @ map Close (takeWhile (\<lambda>h. closeHandle env h = None) hs) @ [Close h]))"
  by (induction hs arbitrary: log) (auto split: option.splits)

lemma UNSUBSCRIBE_run:
  assumes "subscriptions state plainAddress = Some subscriptionTypes"
    and "subscriptionTypes \<noteq> []"
  shows "UNSUBSCRIBE env plainAddress (state, log) =
     (case find (\<lambda>h. closeHandle env h \<noteq> None) (handlesOf subscriptionTypes) of
        None \<Rightarrow>
          (Returned (),
           (updateSubscriptions state plainAddress None,
            log @ map Close (handlesOf subscriptionTypes)))
      | Some h \<Rightarrow>
          (Thrown (the (closeHandle env h)),
           (state,
            log @ map Close (takeWhile (\<lambda>h. closeHandle env h = None)
                    (handlesOf subscriptionTypes)) @ [Close h])))"
  using assms
  by (simp add: UNSUBSCRIBE_def closeSubscriptionTypes_flat closeSubscriptions_run
      split: option.splits)

text \<open>
  C4, as the code has it. \<open>UNSUBSCRIBE\<close> of an address with entries closes the
  subscriptions and then the listener of every entry, in order, and deletes the address
  from the registry, when every close returns. When a close throws, the action ends
  there with that error: the handles after it are not closed and the registry is left
  as it was.
\<close>

theorem unsubscribe_fail_fast:
  assumes "subscriptions state plainAddress = Some subscriptionTypes"
    and "subscriptionTypes \<noteq> []"
  shows "UNSUBSCRIBE env plainAddress (state, log) =
     (case find (\<lambda>h. closeHandle env h \<noteq> None) (handlesOf subscriptionTypes) of
        None \<Rightarrow>
          (Returned (),
           (updateSubscriptions state plainAddress None,
            log @ map Close (handlesOf subscriptionTypes)))
      | Some h \<Rightarrow>
          (Thrown (the (closeHandle env h)),
           (state,
            log @ map Close (takeWhile (\<lambda>h. closeHandle env h = None)
                    (handlesOf subscriptionTypes)) @ [Close h])))"
  using assms by (rule UNSUBSCRIBE_run)

theorem unsubscribe_fail_fast_witness:
  "subscriptions subscribedState ''TA'' = Some [\<lparr>listener = 1, streams = [2, 3]\<rparr>] \<and>
   UNSUBSCRIBE stuckEnv ''TA'' (subscribedState, [Open 1, Open 2, Open 3]) =
     (Thrown (Error ''unsubscribe failed''),
      (subscribedState, [Open 1, Open 2, Open 3, Close 2]))"
proof -
  have h: "subscriptions subscribedState ''TA'' = Some [\<lparr>listener = 1, streams = [2, 3]\<rparr>]"
    by (simp add: subscribedState_def)
  from unsubscribe_fail_fast [OF h, of stuckEnv "[Open 1, Open 2, Open 3]"] h
  show ?thesis
    by (simp add: handlesOf_def stuckEnv_def)
qed

text \<open>
  C4, as the claim states it, fails: with a subscription (handle \<open>2\<close>) that throws on
  \<open>unsubscribe()\<close>, the subscription \<open>3\<close> and the listener \<open>1\<close> of the same entry
  receive no close call, and the address keeps its entry.
\<close>

theorem unsubscribe_stops_at_failed_close:
  "fst (UNSUBSCRIBE stuckEnv ''TA'' (subscribedState, [])) = Thrown (Error ''unsubscribe failed'')
   \<and> snd (snd (UNSUBSCRIBE stuckEnv ''TA'' (subscribedState, []))) = [Close 2]
   \<and> closeCalls (snd (snd (UNSUBSCRIBE stuckEnv ''TA'' (subscribedState, [])))) 3 = 0
   \<and> closeCalls (snd (snd (UNSUBSCRIBE stuckEnv ''TA'' (subscribedState, [])))) 1 = 0
   \<and> subscriptions (fst (snd (UNSUBSCRIBE stuckEnv ''TA'' (subscribedState, [])))) ''TA''
       = Some [\<lparr>listener = 1, streams = [2, 3]\<rparr>]"
  by (simp add: UNSUBSCRIBE_def subscribedState_def stuckEnv_def closeCalls_def)






section \<open>Properties of the session actions\<close>

text \<open>
  C8. \<open>SET_CURRENT_SIGNER\<close> with an empty public key throws the error of the guard,
  and the state and the log of collaborator calls are the ones it was called with.
\<close>

theorem set_current_signer_empty_key:
  "SET_CURRENT_SIGNER env [] s =
     (Thrown (Error ''Public Key must be provided when calling account/SET_CURRENT_SIGNER!''), s)"
  by (simp add: SET_CURRENT_SIGNER_def)

theorem set_current_signer_empty_key_witness:
  "SET_CURRENT_SIGNER exampleEnv [] (subscribedState, [Dispatch ''diagnostic/ADD_DEBUG'']) =
     (Thrown (Error ''Public Key must be provided when calling account/SET_CURRENT_SIGNER!''),
      (subscribedState, [Dispatch ''diagnostic/ADD_DEBUG'']))"
  using set_current_signer_empty_key
    [of exampleEnv "(subscribedState, [Dispatch ''diagnostic/ADD_DEBUG''])"]
  by simp

text \<open>The paths of \<open>SET_CURRENT_SIGNER\<close>, one equation each.\<close>

lemma SET_CURRENT_SIGNER_rejected_key:
  assumes "pk \<noteq> []" "createFromPublicKey env pk (networkType env) = Inl e"
  shows "SET_CURRENT_SIGNER env pk s = (Thrown e, s)"
  unfolding SET_CURRENT_SIGNER_def Let_def
  by (simp only: assms if_False sum.case)

lemma SET_CURRENT_SIGNER_same:
  assumes "pk \<noteq> []" "createFromPublicKey env pk (networkType env) = Inr signerAddr"
    and "currentSignerAddress (fst s) = Some signerAddr"
  shows "SET_CURRENT_SIGNER env pk s = (Returned (), s)"
  unfolding SET_CURRENT_SIGNER_def Let_def
  by (simp only: assms if_False if_True sum.case simp_thms)

lemma SET_CURRENT_SIGNER_changed:
  assumes "pk \<noteq> []" "createFromPublicKey env pk (networkType env) = Inr signerAddr"
    and "currentSignerAddress (fst s) \<noteq> Some signerAddr"
  shows "SET_CURRENT_SIGNER env pk s =
    (case currentAccount (fst s) of
       None \<Rightarrow>
         (Thrown (TypeError ''Cannot read property address of null''),
          dispatch ''transaction/RESET_TRANSACTIONS'' (dispatch ''diagnostic/ADD_DEBUG'' s))
     | Some account \<Rightarrow>
         (case createFromRawAddress env (address account) of
            Inl e \<Rightarrow>
              (Thrown e,
               dispatch ''transaction/RESET_TRANSACTIONS'' (dispatch ''diagnostic/ADD_DEBUG'' s))
          | Inr accountAddr \<Rightarrow>
              (case currentProfile env of
                 None \<Rightarrow>
                   (Thrown (TypeError ''Cannot read property accounts of null''),
                    dispatch ''transaction/RESET_TRANSACTIONS''
                      (dispatch ''diagnostic/ADD_DEBUG'' s))
               | Some profile \<Rightarrow>
                   andThen
                     (case currentSignerAddress (fst s) of
                        None \<Rightarrow>
                          (Returned (),
                           dispatch ''transaction/SIGNER_CHANGED''
                             (dispatch ''mosaic/SIGNER_CHANGED''
                               (dispatch ''namespace/SIGNER_CHANGED''
                                 ((fst s)
                                    \<lparr>currentSignerAddress := Some signerAddr,
                                     currentAccountAddress := Some accountAddr,
                                     isCosignatoryMode := (signerAddr \<noteq> accountAddr),
                                     knownAccounts := getKnownAccounts env (accounts profile)\<rparr>,
                                  snd s @ [Dispatch ''diagnostic/ADD_DEBUG'',
                                           Dispatch ''transaction/RESET_TRANSACTIONS'']))))
                      | Some previous \<Rightarrow>
                          UNSUBSCRIBE env (plain previous)
                            (dispatch ''transaction/SIGNER_CHANGED''
                              (dispatch ''mosaic/SIGNER_CHANGED''
                                (dispatch ''namespace/SIGNER_CHANGED''
                                  ((fst s)
                                     \<lparr>currentSignerAddress := Some signerAddr,
                                      currentAccountAddress := Some accountAddr,
                                      isCosignatoryMode := (signerAddr \<noteq> accountAddr),
                                      knownAccounts := getKnownAccounts env (accounts profile)\<rparr>,
                                   snd s @ [Dispatch ''diagnostic/ADD_DEBUG'',
                                            Dispatch ''transaction/RESET_TRANSACTIONS''])))))
                     (\<lambda>u s3. andThen (SUBSCRIBE env (Some signerAddr) s3)
                        (\<lambda>u s4. andThen (LOAD_ACCOUNT_INFO env s4)
                           (\<lambda>u s5.
                              (Returned (),
                               dispatch ''mosaic/LOAD_MOSAICS''
                                 (dispatch ''namespace/LOAD_NAMESPACES'' s5))))))))"
proof -
  have d: "fst (dispatch ''transaction/RESET_TRANSACTIONS'' (dispatch ''diagnostic/ADD_DEBUG'' s))
      = fst s"
    "snd (dispatch ''transaction/RESET_TRANSACTIONS'' (dispatch ''diagnostic/ADD_DEBUG'' s))
      = snd s @ [Dispatch ''diagnostic/ADD_DEBUG'', Dispatch ''transaction/RESET_TRANSACTIONS'']"
    by (simp_all add: dispatch_def)
  show ?thesis
    unfolding SET_CURRENT_SIGNER_def Let_def
    by (simp only: assms if_False sum.case d)
qed

text \<open>Who keeps the invariant of the cosignatory mode: the registry actions and
  \<open>LOAD_ACCOUNT_INFO\<close> do not write the three fields.\<close>

lemma andThen_keeps:
  assumes "cosignatoryInvariant (fst (snd r))"
    and "\<And>v s. cosignatoryInvariant (fst s) \<Longrightarrow> cosignatoryInvariant (fst (snd (f v s)))"
  shows "cosignatoryInvariant (fst (snd (andThen r f)))"
  using assms by (auto simp: andThen_def split: prod.splits outcome.splits)

lemma UNSUBSCRIBE_keeps:
  "cosignatoryInvariant (fst (snd (UNSUBSCRIBE env a s))) = cosignatoryInvariant (fst s)"
  by (auto simp: UNSUBSCRIBE_def updateSubscriptions_def cosignatoryInvariant_def Let_def
      split: prod.splits outcome.splits option.splits)

lemma SUBSCRIBE_keeps:
  "cosignatoryInvariant (fst (snd (SUBSCRIBE env a s))) = cosignatoryInvariant (fst s)"
  by (auto simp: SUBSCRIBE_def updateSubscriptions_def cosignatoryInvariant_def Let_def
      split: sum.splits option.splits)

lemma LOAD_ACCOUNT_INFO_keeps:
  "cosignatoryInvariant (fst (snd (LOAD_ACCOUNT_INFO env s))) = cosignatoryInvariant (fst s)"
  by (auto simp: LOAD_ACCOUNT_INFO_def cosignatoryInvariant_def Let_def
      split: sum.splits option.splits)

lemma dispatch_keeps: "fst (dispatch a s) = fst s"
  by (simp add: dispatch_def)

text \<open>\<open>SET_CURRENT_SIGNER\<close> writes the two addresses and the flag together.\<close>

lemma signer_chain_keeps:
  assumes "cosignatoryInvariant (fst (snd r0))"
  shows "cosignatoryInvariant (fst (snd
      (andThen r0
         (\<lambda>u s3. andThen (SUBSCRIBE env addr s3)
           (\<lambda>u s4. andThen (LOAD_ACCOUNT_INFO env s4)
             (\<lambda>u s5. (Returned (), dispatch b (dispatch c s5))))))))"
  using assms
  by (intro andThen_keeps) (simp_all add: SUBSCRIBE_keeps LOAD_ACCOUNT_INFO_keeps dispatch_keeps)


lemma SET_CURRENT_SIGNER_keeps:
  assumes inv: "cosignatoryInvariant (fst s)"
  shows "cosignatoryInvariant (fst (snd (SET_CURRENT_SIGNER env pk s)))"
proof (cases "pk = []")
  case True
  have "SET_CURRENT_SIGNER env [] s =
     (Thrown (Error ''Public Key must be provided when calling account/SET_CURRENT_SIGNER!''), s)"
    by (simp add: SET_CURRENT_SIGNER_def)
  with inv show ?thesis unfolding True by (simp only: snd_conv fst_conv)
next
  case pk: False
  show ?thesis
  proof (cases "createFromPublicKey env pk (networkType env)")
    case (Inl e)
    with inv show ?thesis by (simp only: SET_CURRENT_SIGNER_rejected_key [OF pk Inl] snd_conv fst_conv)
  next
    case signer: (Inr signerAddr)
    show ?thesis
    proof (cases "currentSignerAddress (fst s) = Some signerAddr")
      case True
      with inv show ?thesis
        by (simp only: SET_CURRENT_SIGNER_same [OF pk signer True] snd_conv fst_conv)
    next
      case changed: False
      note eq = SET_CURRENT_SIGNER_changed [OF pk signer changed]
      show ?thesis
      proof (cases "currentAccount (fst s)")
        case None
        with inv show ?thesis
          by (simp only: eq option.case snd_conv fst_conv dispatch_keeps)
      next
        case account: (Some account)
        show ?thesis
        proof (cases "createFromRawAddress env (address account)")
          case (Inl e)
          with inv show ?thesis
            by (simp only: eq account option.case sum.case snd_conv fst_conv dispatch_keeps)
        next
          case accountAddr: (Inr accountAddr)
          show ?thesis
          proof (cases "currentProfile env")
            case None
            with inv show ?thesis
              by (simp only: eq account accountAddr option.case sum.case snd_conv fst_conv
                  dispatch_keeps)
          next
            case profile: (Some profile)
            let ?s2 = "dispatch ''transaction/SIGNER_CHANGED''
                (dispatch ''mosaic/SIGNER_CHANGED''
                  (dispatch ''namespace/SIGNER_CHANGED''
                    ((fst s)
                       \<lparr>currentSignerAddress := Some signerAddr,
                        currentAccountAddress := Some accountAddr,
                        isCosignatoryMode := (signerAddr \<noteq> accountAddr),
                        knownAccounts := getKnownAccounts env (accounts profile)\<rparr>,
                     snd s @ [Dispatch ''diagnostic/ADD_DEBUG'',
                              Dispatch ''transaction/RESET_TRANSACTIONS''])))"
            have s2: "cosignatoryInvariant (fst ?s2)"
              by (simp add: dispatch_keeps cosignatoryInvariant_def)
            have "cosignatoryInvariant (fst (snd
                (case currentSignerAddress (fst s) of
                   None \<Rightarrow> (Returned (), ?s2)
                 | Some previous \<Rightarrow> UNSUBSCRIBE env (plain previous) ?s2)))"
              using s2 by (cases "currentSignerAddress (fst s)") (simp_all only: option.case
                  snd_conv UNSUBSCRIBE_keeps)
            from signer_chain_keeps [OF this]
            show ?thesis
              by (simp only: eq account accountAddr profile option.case sum.case)
          qed
        qed
      qed
    qed
  qed
qed

lemma SET_CURRENT_ACCOUNT_keeps:
  assumes inv: "cosignatoryInvariant (fst s)"
  shows "cosignatoryInvariant (fst (snd (SET_CURRENT_ACCOUNT env account s)))"
proof (cases "case currentAccount (fst s) of None \<Rightarrow> False
    | Some previous \<Rightarrow> address previous = address account")
  case True
  with inv show ?thesis
    unfolding SET_CURRENT_ACCOUNT_def by (simp only: if_True snd_conv fst_conv)
next
  case other: False
  show ?thesis
  proof (cases "createFromRawAddress env (address account)")
    case (Inl e)
    with other inv show ?thesis
      unfolding SET_CURRENT_ACCOUNT_def by (simp only: if_False sum.case snd_conv fst_conv)
  next
    case (Inr accountAddr)
    let ?s2 = "((fst (dispatch ''diagnostic/ADD_DEBUG'' s))\<lparr>currentAccount := Some account\<rparr>,
      snd (dispatch ''diagnostic/ADD_DEBUG'' s))"
    have "cosignatoryInvariant (fst ?s2)"
      using inv by (simp add: cosignatoryInvariant_def dispatch_def)
    then have "cosignatoryInvariant (fst (snd (SET_CURRENT_SIGNER env (publicKey account) ?s2)))"
      by (rule SET_CURRENT_SIGNER_keeps)
    then have "cosignatoryInvariant (fst (snd
      (andThen (SET_CURRENT_SIGNER env (publicKey account) ?s2)
         (\<lambda>u s3. andThen (initialize env (plain accountAddr) s3)
         (\<lambda>u s4. (Returned (),
            (fst s4, snd s4 @ [Emit ''onAccountChange'' (plain accountAddr)])))))))"
      by (intro andThen_keeps) (simp_all add: initialize_def cosignatoryInvariant_def)
    with other Inr show ?thesis
      unfolding SET_CURRENT_ACCOUNT_def Let_def by (simp only: if_False sum.case)
  qed
qed

text \<open>\<open>RESET_CURRENT_ACCOUNT\<close> clears the two addresses and leaves the flag: the
  invariant holds afterwards exactly when the flag was off.\<close>

lemma RESET_CURRENT_ACCOUNT_flag:
  "cosignatoryInvariant (fst (snd (RESET_CURRENT_ACCOUNT s))) = (\<not> isCosignatoryMode (fst s))"
  by (simp add: RESET_CURRENT_ACCOUNT_def cosignatoryInvariant_def dispatch_def Let_def)

text \<open>
  C6. \<open>isCosignatoryMode\<close> should be on exactly when the signer address differs from
  the account address, in every state the actions reach. After the account \<open>A\<close> is
  made current, the signer \<open>B\<close> is chosen and the account is reset, the two addresses
  are both \<open>null\<close> and the flag is still on.
\<close>

theorem reset_keeps_cosignatory_mode:
  "fst (andThen (SET_CURRENT_ACCOUNT exampleEnv accountA (accountState, []))
          (\<lambda>u s. andThen (SET_CURRENT_SIGNER exampleEnv ''B'' s)
             (\<lambda>u. RESET_CURRENT_ACCOUNT))) = Returned ()
   \<and> isCosignatoryMode (fst (snd (andThen (SET_CURRENT_ACCOUNT exampleEnv accountA (accountState, []))
          (\<lambda>u s. andThen (SET_CURRENT_SIGNER exampleEnv ''B'' s)
             (\<lambda>u. RESET_CURRENT_ACCOUNT)))))
   \<and> currentSignerAddress (fst (snd (andThen (SET_CURRENT_ACCOUNT exampleEnv accountA (accountState, []))
          (\<lambda>u s. andThen (SET_CURRENT_SIGNER exampleEnv ''B'' s)
             (\<lambda>u. RESET_CURRENT_ACCOUNT))))) = None
   \<and> currentAccountAddress (fst (snd (andThen (SET_CURRENT_ACCOUNT exampleEnv accountA (accountState, []))
          (\<lambda>u s. andThen (SET_CURRENT_SIGNER exampleEnv ''B'' s)
             (\<lambda>u. RESET_CURRENT_ACCOUNT))))) = None
   \<and> \<not> cosignatoryInvariant (fst (snd (andThen
          (SET_CURRENT_ACCOUNT exampleEnv accountA (accountState, []))
          (\<lambda>u s. andThen (SET_CURRENT_SIGNER exampleEnv ''B'' s)
             (\<lambda>u. RESET_CURRENT_ACCOUNT)))))"
  by (simp add: SET_CURRENT_ACCOUNT_def SET_CURRENT_SIGNER_def RESET_CURRENT_ACCOUNT_def
      andThen_def dispatch_def initialize_def LOAD_ACCOUNT_INFO_def SUBSCRIBE_def UNSUBSCRIBE_def
      updateSubscriptions_def exampleEnv_def accountA_def accountState_def cosignatoryInvariant_def Let_def)

end
